theory Spec2Isabelle
  imports Main
begin

section \<open>numpy\_assist.h: buffer type and shape checking\<close>

subsection \<open>Data\<close>

text \<open>
  The fields of \<open>Py_buffer\<close> that the header reads. \<open>view_buf\<close> is the address
  \<open>view->buf\<close> (0 is NULL); \<open>view_format\<close> is the C string \<open>view->format\<close>
  (\<open>None\<close> is NULL); \<open>view_itemsize\<close> is a \<open>Py_ssize_t\<close>; \<open>view_shape\<close> is the
  array \<open>view->shape\<close> of \<open>view->ndim\<close> entries of type \<open>Py_ssize_t\<close>.
\<close>

record Py_buffer =
  view_buf :: nat
  view_format :: "string option"
  view_itemsize :: int
  view_shape :: "int list"

text \<open>
  The template parameter \<open>T\<close>, as far as the header looks at it: the four types that
  \<open>type_name\<close> knows, any other integral type and any other non-integral type, the last
  two with their \<open>sizeof\<close>.
\<close>

datatype ctype = Int32 | Int64 | Float | Double | OtherIntegral nat | OtherNonIntegral nat

fun sizeof :: "ctype \<Rightarrow> nat" where
  "sizeof Int32 = 4"
| "sizeof Int64 = 8"
| "sizeof Float = 4"
| "sizeof Double = 8"
| "sizeof (OtherIntegral n) = n"
| "sizeof (OtherNonIntegral n) = n"

fun is_integral :: "ctype \<Rightarrow> bool" where
  "is_integral Int32 = True"
| "is_integral Int64 = True"
| "is_integral (OtherIntegral n) = True"
| "is_integral Float = False"
| "is_integral Double = False"
| "is_integral (OtherNonIntegral n) = False"

text \<open>The exceptions of \<open>exceptions.h\<close>, with the arguments the header passes.\<close>

datatype exn =
    buffer_exception string
  | dtype_exception string string
  | shape_exception string string

subsection \<open>Machine integers\<close>

text \<open>
  \<open>int\<close> is 32 bits wide and \<open>size_t\<close> 64. \<open>to_size_t\<close> is the conversion of an
  \<open>int\<close> to \<open>size_t\<close> in a mixed comparison or subtraction, \<open>to_int\<close> the conversion of a
  \<open>size_t\<close> or \<open>Py_ssize_t\<close> to \<open>int\<close> (it keeps the low 32 bits, read as signed).
\<close>

definition to_size_t :: "int \<Rightarrow> int" where
  "to_size_t x = x mod 2 ^ 64"

definition to_int :: "int \<Rightarrow> int" where
  "to_int x = (x + 2 ^ 31) mod 2 ^ 32 - 2 ^ 31"

subsection \<open>check\_buffer\_type\<close>

definition check_buffer_helper :: "ctype \<Rightarrow> Py_buffer \<Rightarrow> string \<Rightarrow> bool" where
  "check_buffer_helper T view opts =
     (case view_format view of
        None \<Rightarrow> False
      | Some fmt \<Rightarrow>
          if fmt = [] then False
          else
            let code_ok = fold (\<lambda>c code_ok. code_ok \<or> hd fmt = c) opts False
            in code_ok \<and> view_itemsize view = int (sizeof T))"

text \<open>
  Overload resolution: the explicit specialisations for \<open>float\<close> and \<open>double\<close> first,
  then the \<open>enable_if\<close> pair on \<open>std::is_integral\<close>.
\<close>

definition check_buffer_type :: "ctype \<Rightarrow> Py_buffer \<Rightarrow> bool" where
  "check_buffer_type T view =
     (case T of
        Float \<Rightarrow> check_buffer_helper T view ''f''
      | Double \<Rightarrow> check_buffer_helper T view ''d''
      | _ \<Rightarrow> if is_integral T then check_buffer_helper T view ''bhilq'' else False)"

subsection \<open>type\_name and shape\_string\<close>

fun type_name :: "ctype \<Rightarrow> string" where
  "type_name Int32 = ''int32''"
| "type_name Int64 = ''int64''"
| "type_name Float = ''float32''"
| "type_name Double = ''float64''"
| "type_name T = ''unknown''"

text \<open>\<open>operator<<\<close> on a non-negative \<open>int\<close>: its decimal digits.\<close>

function decimal :: "nat \<Rightarrow> string" where
  "decimal n =
     (if n < 10 then [''0123456789'' ! n]
      else decimal (n div 10) @ [''0123456789'' ! (n mod 10)])"
  by pat_completeness auto
termination
  by (relation "measure id") auto

declare decimal.simps [simp del]

definition shape_entry :: "int \<Rightarrow> string" where
  "shape_entry s =
     (if s \<ge> 0 then decimal (nat s)
      else if s = -1 then ''*''
      else if s = -2 then ''...->''
      else if s = -3 then ''->...''
      else ''!error'')"

fun shape_entries :: "nat \<Rightarrow> int list \<Rightarrow> string" where
  "shape_entries i [] = []"
| "shape_entries i (s # rest) =
     (if i > 0 then '', '' else []) @ shape_entry s @ shape_entries (i + 1) rest"

definition shape_string :: "int list \<Rightarrow> string" where
  "shape_string shape = ''('' @ shape_entries 0 shape @ '')''"

subsection \<open>BufferWrapper\<close>

text \<open>\<open>BufferWrapper()\<close>: a value-initialised \<open>Py_buffer\<close>, all fields zero.\<close>

definition BufferWrapper_default :: Py_buffer where
  "BufferWrapper_default =
     \<lparr>view_buf = 0, view_format = None, view_itemsize = 0, view_shape = []\<rparr>"

text \<open>
  The Python object \<open>src\<close>, given by what
  \<open>PyObject_GetBuffer(src.ptr(), view.get(), PyBUF_RECORDS)\<close> does on it, the view being
  the value-initialised one when the call is made:
  \<^item> \<open>NoBufferInterface\<close>: the object does not expose the buffer interface; the call
    returns -1 and does not touch the view;
  \<^item> \<open>GetBufferFails v\<close>: the object exposes the buffer interface and its export fails;
    the call returns -1 and leaves the view as \<open>v\<close>. \<open>PyBUF_RECORDS\<close> asks for a
    writable buffer, so a read-only object is such a case: a \<open>bytes\<close> object leaves the
    view untouched (\<open>v\<close> is the value-initialised view), a read-only memoryview has
    filled it before it fails;
  \<^item> \<open>GetBufferOk v\<close>: the call returns 0 and has filled the view with \<open>v\<close>.
\<close>

datatype py_object = NoBufferInterface | GetBufferFails Py_buffer | GetBufferOk Py_buffer

text \<open>
  The constructor with no shape or type checking: when the call returns -1 it returns
  if \<open>optional\<close>, with the view as the call left it, and throws otherwise.
\<close>

definition BufferWrapper_src :: "string \<Rightarrow> py_object \<Rightarrow> bool \<Rightarrow> exn + Py_buffer" where
  "BufferWrapper_src name src optional =
     (case src of
        NoBufferInterface \<Rightarrow>
          if optional then Inr BufferWrapper_default else Inl (buffer_exception name)
      | GetBufferFails v \<Rightarrow>
          if optional then Inr v else Inl (buffer_exception name)
      | GetBufferOk v \<Rightarrow> Inr v)"

text \<open>
  The matching loop of the shape-checking constructor, on the state \<open>(i, j)\<close>. Both are
  \<open>int\<close> in the source. \<open>i\<close> starts at 0 and is only ever incremented, so it is a
  \<open>nat\<close> here (the increment would overflow only for a pattern of \<open>2^31\<close> entries or
  more). \<open>j\<close> can become negative in the \<open>-2\<close> branch, which computes in \<open>size_t\<close>
  and converts back to \<open>int\<close>; the loop test and the subscript convert it to \<open>size_t\<close>.
  \<open>j++\<close> runs only after the loop test, so below the size of \<open>vshape\<close>, and is
  written without wrap-around. \<open>break\<close> returns the state as it is.
\<close>

function shape_loop :: "int list \<Rightarrow> int list \<Rightarrow> nat \<Rightarrow> int \<Rightarrow> nat \<times> int" where
  "shape_loop shape vshape i j =
     (if i < length shape \<and> to_size_t j < int (length vshape) then
        if shape ! i = -1 then shape_loop shape vshape (i + 1) (j + 1)
        else if shape ! i = -2 then
          shape_loop shape vshape (i + 1)
            (to_int ((int (length vshape) - (int (length shape) - int i) + 1) mod 2 ^ 64))
        else if shape ! i = -3 then
          shape_loop shape vshape (i + 1) (to_int (int (length vshape)))
        else if shape ! i = vshape ! nat (to_size_t j) then
          shape_loop shape vshape (i + 1) (j + 1)
        else (i, j)
      else (i, j))"
  by pat_completeness auto
termination
  by (relation "measure (\<lambda>(shape, vshape, i, j). length shape - i)") auto

declare shape_loop.simps [simp del]

text \<open>The buffer's shape as the constructor copies it into a \<open>vector<int>\<close>.\<close>

definition vshape_of :: "Py_buffer \<Rightarrow> int list" where
  "vshape_of view = map to_int (view_shape view)"

definition BufferWrapper_shape ::
    "ctype \<Rightarrow> string \<Rightarrow> py_object \<Rightarrow> bool \<Rightarrow> int list \<Rightarrow> exn + Py_buffer" where
  "BufferWrapper_shape T name src optional shape =
     (case BufferWrapper_src name src optional of
        Inl e \<Rightarrow> Inl e
      | Inr view \<Rightarrow>
          if view_buf view = 0 then Inr view
          else if \<not> check_buffer_type T view then Inl (dtype_exception name (type_name T))
          else
            let vshape = vshape_of view;
                (i, j) = shape_loop shape vshape 0 0
            in if i \<noteq> length shape \<or> to_size_t j \<noteq> int (length vshape) then
                 Inl (shape_exception name
                   (''Expected '' @ shape_string shape @ '' but got '' @ shape_string vshape @ ''.''))
               else Inr view)"

section \<open>Intervals.h: interval sets\<close>

subsection \<open>Data and the constructors of the header\<close>

text \<open>
  \<open>Intervals<T>\<close> has two public members. \<open>T\<close> is a type variable; the operations
  only copy and compare values of \<open>T\<close>.
\<close>

record 'a Intervals =
  domain :: "'a \<times> 'a"
  segments :: "('a \<times> 'a) list"

text \<open>\<open>Intervals(pair<T,T> domain) : domain{domain} {}\<close>: no test, no throw.\<close>

definition Intervals_pair :: "'a \<times> 'a \<Rightarrow> 'a Intervals" where
  "Intervals_pair d = \<lparr>domain = d, segments = []\<rparr>"

text \<open>
  \<open>Intervals(T start, T end) { Intervals(make_pair(start, end)); }\<close>: the body builds a
  temporary with the one-argument constructor and drops it. The constructor has no
  member initialisers, so the object's own \<open>domain\<close> is default-initialised:
  \<open>std::pair\<close>'s default constructor value-initialises both members, which is \<open>T()\<close>,
  zero for the arithmetic instances of \<open>T\<close>.
\<close>

definition Intervals_start_end :: "'a::zero \<Rightarrow> 'a \<Rightarrow> 'a Intervals" where
  "Intervals_start_end start end' =
     (let temporary = Intervals_pair (start, end')
      in \<lparr>domain = (0, 0), segments = []\<rparr>)"

subsection \<open>The operations the header only declares\<close>

text \<open>
  Modelled from the spec: the default constructor \<open>Intervals()\<close>, whose body is not in the
  header. The spec gives an empty set over an implementation-defined domain, which is
  the parameter here.
\<close>

definition Intervals_default :: "'a \<times> 'a \<Rightarrow> 'a Intervals" where
  "Intervals_default full_range = \<lparr>domain = full_range, segments = []\<rparr>"

text \<open>
  Modelled from the spec: \<open>cleanup\<close>, whose body is not in the header. The spec: sort
  segments by start, drop degenerate/empty segments, merge any pair that overlaps or is
  contiguous; two segments \<open>[a,b)\<close> and \<open>[c,d)\<close> coalesce when \<open>c \<le> b\<close>.
\<close>

fun coalesce :: "('a::linorder \<times> 'a) list \<Rightarrow> ('a \<times> 'a) list" where
  "coalesce [] = []"
| "coalesce [x] = [x]"
| "coalesce ((a, b) # (c, d) # rest) =
     (if c \<le> b then coalesce ((a, max b d) # rest)
      else (a, b) # coalesce ((c, d) # rest))"

definition cleanup_segments :: "('a::linorder \<times> 'a) list \<Rightarrow> ('a \<times> 'a) list" where
  "cleanup_segments segs = coalesce (sort_key fst (filter (\<lambda>(s, e). s < e) segs))"

definition cleanup :: "'a::linorder Intervals \<Rightarrow> 'a Intervals" where
  "cleanup X = X\<lparr>segments := cleanup_segments (segments X)\<rparr>"

text \<open>Clipping a segment to a domain.\<close>

definition clip :: "'a::linorder \<times> 'a \<Rightarrow> 'a \<times> 'a \<Rightarrow> 'a \<times> 'a" where
  "clip d seg = (max (fst seg) (fst d), min (snd seg) (snd d))"

text \<open>
  Modelled from the spec: \<open>add_interval\<close>, whose body is not in the header. The spec:
  inserts \<open>[start, end)\<close> clipped to the domain; if \<open>start \<ge> end\<close> after clipping, no-op;
  re-sorts and coalesces.
\<close>

definition add_interval :: "'a::linorder \<Rightarrow> 'a \<Rightarrow> 'a Intervals \<Rightarrow> 'a Intervals" where
  "add_interval start end' X =
     (let (s, e) = clip (domain X) (start, end')
      in if s \<ge> e then X
         else cleanup (X\<lparr>segments := segments X @ [(s, e)]\<rparr>))"

text \<open>
  Modelled from the spec: \<open>merge\<close>, whose body is not in the header. The spec: the domain
  is the component-wise min of starts and max of ends; the segments are those of both
  sets, clipped into the new domain, then canonicalized.
\<close>

definition merge :: "'a::linorder Intervals \<Rightarrow> 'a Intervals \<Rightarrow> 'a Intervals" where
  "merge X src =
     (let d = (min (fst (domain X)) (fst (domain src)), max (snd (domain X)) (snd (domain src)))
      in cleanup \<lparr>domain = d, segments = map (clip d) (segments X @ segments src)\<rparr>)"

text \<open>
  Modelled from the spec: \<open>intersect\<close>, whose body is not in the header. The spec: the
  domain is the overlap of the two domains (max of starts, min of ends), degenerate with
  \<open>start = end\<close> when they do not overlap; the segments are the non-empty pairwise
  overlaps \<open>[max(a.start,b.start), min(a.end,b.end))\<close>, then canonicalized. The
  degenerate domain is put at the larger start.
\<close>

definition pairwise_overlaps ::
    "('a::linorder \<times> 'a) list \<Rightarrow> ('a \<times> 'a) list \<Rightarrow> ('a \<times> 'a) list" where
  "pairwise_overlaps xs ys =
     concat (map (\<lambda>(a, b). concat (map (\<lambda>(c, d).
       if max a c < min b d then [(max a c, min b d)] else []) ys)) xs)"

definition intersect :: "'a::linorder Intervals \<Rightarrow> 'a Intervals \<Rightarrow> 'a Intervals" where
  "intersect X src =
     (let lo = max (fst (domain X)) (fst (domain src));
          hi = min (snd (domain X)) (snd (domain src))
      in if lo \<le> hi then
           cleanup \<lparr>domain = (lo, hi), segments = pairwise_overlaps (segments X) (segments src)\<rparr>
         else \<lparr>domain = (lo, lo), segments = []\<rparr>)"

text \<open>
  Modelled from the spec: \<open>get_complement\<close>, whose body is not in the header; the header
  declares it \<open>const\<close>, returning a new object. The spec: same domain; for segments
  \<open>[s0,e0), [s1,e1), ...\<close> the complement segments are \<open>[domain.start, s0)\<close>,
  \<open>[e0, s1)\<close>, ..., \<open>[eN, domain.end)\<close>, with any degenerate (empty) gaps dropped. The
  result is the pair of the receiver after the call and the returned set.
\<close>

fun gaps :: "'a::linorder \<Rightarrow> ('a \<times> 'a) list \<Rightarrow> 'a \<Rightarrow> ('a \<times> 'a) list" where
  "gaps lo [] hi = (if lo < hi then [(lo, hi)] else [])"
| "gaps lo ((s, e) # rest) hi = (if lo < s then [(lo, s)] else []) @ gaps e rest hi"

definition get_complement :: "'a::linorder Intervals \<Rightarrow> 'a Intervals \<times> 'a Intervals" where
  "get_complement X =
     (X, \<lparr>domain = domain X,
          segments = gaps (fst (domain X)) (segments X) (snd (domain X))\<rparr>)"

text \<open>
  Modelled from the spec: \<open>trim_to\<close>, whose body is not in the header. The spec: trimming
  to a domain where \<open>start > end\<close> is an \<open>InvalidDomain\<close> error; otherwise the domain
  shrinks to \<open>[start, end]\<close> intersected with the existing domain, every segment is
  clipped to the new domain, and the set is canonicalized.
\<close>

datatype interval_error = InvalidDomain

definition trim_to ::
    "'a::linorder \<Rightarrow> 'a \<Rightarrow> 'a Intervals \<Rightarrow> interval_error + 'a Intervals" where
  "trim_to start end' X =
     (if start > end' then Inl InvalidDomain
      else
        let d = (max (fst (domain X)) start, min (snd (domain X)) end')
        in Inr (cleanup \<lparr>domain = d, segments = map (clip d) (segments X)\<rparr>))"

text \<open>
  Modelled from the spec: the operators, whose bodies are not in the header. The spec:
  unary minus returns \<open>get_complement()\<close>; \<open>a += b\<close> is \<open>a.merge(b)\<close>; \<open>a -= b\<close> removes
  from \<open>a\<close> every sub-range that lies within one of \<open>b\<close>'s segments and keeps \<open>a\<close>'s
  domain; \<open>a + b\<close>, \<open>a - b\<close> and \<open>a * b\<close> are a copy of \<open>a\<close>, then \<open>merge(b)\<close>, \<open>-= b\<close>
  and \<open>intersect(b)\<close>.
\<close>

definition remove_segment :: "'a::linorder \<times> 'a \<Rightarrow> ('a \<times> 'a) list \<Rightarrow> ('a \<times> 'a) list" where
  "remove_segment sub segs =
     concat (map (\<lambda>(a, b). [(a, min b (fst sub)), (max a (snd sub), b)]) segs)"

definition op_neg :: "'a::linorder Intervals \<Rightarrow> 'a Intervals" where
  "op_neg X = snd (get_complement X)"

definition op_plus_assign :: "'a::linorder Intervals \<Rightarrow> 'a Intervals \<Rightarrow> 'a Intervals" where
  "op_plus_assign X src = merge X src"

definition op_minus_assign :: "'a::linorder Intervals \<Rightarrow> 'a Intervals \<Rightarrow> 'a Intervals" where
  "op_minus_assign X src = cleanup (X\<lparr>segments := fold remove_segment (segments src) (segments X)\<rparr>)"

definition op_plus :: "'a::linorder Intervals \<Rightarrow> 'a Intervals \<Rightarrow> 'a Intervals" where
  "op_plus X src = (let output = X in merge output src)"

definition op_minus :: "'a::linorder Intervals \<Rightarrow> 'a Intervals \<Rightarrow> 'a Intervals" where
  "op_minus X src = (let output = X in op_minus_assign output src)"

definition op_times :: "'a::linorder Intervals \<Rightarrow> 'a Intervals \<Rightarrow> 'a Intervals" where
  "op_times X src = (let output = X in intersect output src)"

subsection \<open>Canonical form and the sets a caller can observe\<close>

text \<open>
  Canonical form: the segments are sorted ascending by start, pairwise non-overlapping and
  non-adjacent (an earlier segment ends strictly before a later one starts), each has
  \<open>start < end\<close>, and each lies within the domain.
\<close>

definition canonical :: "'a::linorder Intervals \<Rightarrow> bool" where
  "canonical X =
     (sorted (map fst (segments X)) \<and>
      sorted_wrt (\<lambda>p q. snd p < fst q) (segments X) \<and>
      list_all (\<lambda>(s, e). s < e) (segments X) \<and>
      list_all (\<lambda>(s, e). fst (domain X) \<le> s \<and> e \<le> snd (domain X)) (segments X))"

text \<open>
  The sets obtained from the constructors by any sequence of public operations, the other
  operand of a binary operation being such a set too.
\<close>

inductive observable :: "'a::{linorder, zero} Intervals \<Rightarrow> bool" where
  obs_default: "observable (Intervals_default d)"
| obs_pair: "observable (Intervals_pair d)"
| obs_start_end: "observable (Intervals_start_end start end')"
| obs_add_interval: "observable X \<Longrightarrow> observable (add_interval start end' X)"
| obs_merge: "observable X \<Longrightarrow> observable Y \<Longrightarrow> observable (merge X Y)"
| obs_intersect: "observable X \<Longrightarrow> observable Y \<Longrightarrow> observable (intersect X Y)"
| obs_get_complement: "observable X \<Longrightarrow> observable (snd (get_complement X))"
| obs_trim_to: "observable X \<Longrightarrow> trim_to start end' X = Inr Y \<Longrightarrow> observable Y"
| obs_cleanup: "observable X \<Longrightarrow> observable (cleanup X)"
| obs_neg: "observable X \<Longrightarrow> observable (op_neg X)"
| obs_plus_assign: "observable X \<Longrightarrow> observable Y \<Longrightarrow> observable (op_plus_assign X Y)"
| obs_minus_assign: "observable X \<Longrightarrow> observable Y \<Longrightarrow> observable (op_minus_assign X Y)"
| obs_plus: "observable X \<Longrightarrow> observable Y \<Longrightarrow> observable (op_plus X Y)"
| obs_minus: "observable X \<Longrightarrow> observable Y \<Longrightarrow> observable (op_minus X Y)"
| obs_times: "observable X \<Longrightarrow> observable Y \<Longrightarrow> observable (op_times X Y)"

subsection \<open>The shape patterns as the comments describe them\<close>

text \<open>
  The reading of a pattern that the comments in the constructor give: \<open>-1\<close> matches any
  single entry, \<open>-2\<close> and \<open>-3\<close> ignore 0 or more entries, a non-negative entry matches
  one entry equal to it.
\<close>

fun pattern_matches :: "int list \<Rightarrow> int list \<Rightarrow> bool" where
  "pattern_matches [] vshape = (vshape = [])"
| "pattern_matches (p # ps) vshape =
     (if p = -1 then (case vshape of [] \<Rightarrow> False | v # vs \<Rightarrow> pattern_matches ps vs)
      else if p = -2 \<or> p = -3 then
        list_ex (\<lambda>k. pattern_matches ps (drop k vshape)) [0 ..< Suc (length vshape)]
      else if p \<ge> 0 then (case vshape of [] \<Rightarrow> False | v # vs \<Rightarrow> v = p \<and> pattern_matches ps vs)
      else False)"

section \<open>Lemmas on the interval operations\<close>

lemma coalesce_fst_subset: "fst ` set (coalesce xs) \<subseteq> fst ` set xs"
  by (induction xs rule: coalesce.induct) (auto split: if_splits)

lemma coalesce_nonempty:
  "list_all (\<lambda>(s, e). s < e) xs \<Longrightarrow> list_all (\<lambda>(s, e). s < e) (coalesce xs)"
  by (induction xs rule: coalesce.induct) (auto simp: max_def)

lemma coalesce_within:
  "list_all (\<lambda>(s, e). lo \<le> s \<and> e \<le> hi) xs \<Longrightarrow>
   list_all (\<lambda>(s, e). lo \<le> s \<and> e \<le> hi) (coalesce xs)"
  by (induction xs rule: coalesce.induct) (auto simp: max_def)

lemma coalesce_separated:
  "sorted (map fst xs) \<Longrightarrow> sorted_wrt (\<lambda>p q. snd p < fst q) (coalesce xs)"
proof (induction xs rule: coalesce.induct)
  case (3 a b c d rest)
  show ?case
  proof (cases "c \<le> b")
    case True
    with 3 show ?thesis by auto
  next
    case False
    have "\<forall>q \<in> set (coalesce ((c, d) # rest)). b < fst q"
    proof
      fix q assume "q \<in> set (coalesce ((c, d) # rest))"
      then have "fst q \<in> fst ` set ((c, d) # rest)"
        using coalesce_fst_subset [of "(c, d) # rest"] by blast
      then have "c \<le> fst q" using "3.prems" by auto
      with False show "b < fst q" by simp
    qed
    with 3 False show ?thesis by auto
  qed
qed simp_all

lemma separated_sorted_starts:
  "sorted_wrt (\<lambda>p q. snd p < fst q) xs \<Longrightarrow> list_all (\<lambda>(s, e). s < e) xs \<Longrightarrow>
   sorted (map fst xs)"
  by (induction xs) (fastforce simp: list_all_iff)+

lemma coalesce_id: "sorted_wrt (\<lambda>p q. snd p < fst q) xs \<Longrightarrow> coalesce xs = xs"
  by (induction xs rule: coalesce.induct) auto

lemma cleanup_segments_separated:
  "sorted_wrt (\<lambda>p q. snd p < fst q) (cleanup_segments xs)"
  unfolding cleanup_segments_def by (rule coalesce_separated) simp

lemma cleanup_segments_nonempty: "list_all (\<lambda>(s, e). s < e) (cleanup_segments xs)"
  unfolding cleanup_segments_def
  by (rule coalesce_nonempty) (simp add: list_all_iff)

lemma cleanup_segments_within:
  "list_all (\<lambda>(s, e). lo \<le> s \<and> e \<le> hi) xs \<Longrightarrow>
   list_all (\<lambda>(s, e). lo \<le> s \<and> e \<le> hi) (cleanup_segments xs)"
  unfolding cleanup_segments_def
  by (rule coalesce_within) (simp add: list_all_iff)

lemma cleanup_segments_id:
  assumes "sorted_wrt (\<lambda>p q. snd p < fst q) xs" and "list_all (\<lambda>(s, e). s < e) xs"
  shows "cleanup_segments xs = xs"
proof -
  have "filter (\<lambda>(s, e). s < e) xs = xs"
    using assms(2) by (simp add: list_all_iff filter_id_conv)
  moreover have "sort_key fst xs = xs"
    using separated_sorted_starts [OF assms] by (rule sort_key_id_if_sorted)
  ultimately show ?thesis
    by (simp add: cleanup_segments_def coalesce_id [OF assms(1)])
qed

lemma canonical_cleanup_segments:
  "list_all (\<lambda>(s, e). fst d \<le> s \<and> e \<le> snd d) xs \<Longrightarrow>
   canonical \<lparr>domain = d, segments = cleanup_segments xs\<rparr>"
  by (simp add: canonical_def cleanup_segments_separated cleanup_segments_nonempty
      cleanup_segments_within separated_sorted_starts)

lemma cleanup_canonical_id: "canonical X \<Longrightarrow> cleanup X = X"
  by (simp add: canonical_def cleanup_def cleanup_segments_id)

lemma canonical_cleanup_record:
  "list_all (\<lambda>(s, e). fst d \<le> s \<and> e \<le> snd d) xs \<Longrightarrow>
   canonical (cleanup \<lparr>domain = d, segments = xs\<rparr>)"
  using canonical_cleanup_segments [of d xs] by (simp add: cleanup_def)

lemma clip_within: "list_all (\<lambda>(s, e). fst d \<le> s \<and> e \<le> snd d) (map (clip d) xs)"
  by (simp add: list_all_iff clip_def)

lemma canonical_empty: "canonical \<lparr>domain = d, segments = []\<rparr>"
  by (simp add: canonical_def)

lemma canonical_add_interval: "canonical X \<Longrightarrow> canonical (add_interval start end' X)"
proof -
  assume c: "canonical X"
  obtain s e where se: "clip (domain X) (start, end') = (s, e)" by (cases "clip (domain X) (start, end')")
  show ?thesis
  proof (cases "s \<ge> e")
    case True
    with c se show ?thesis by (simp add: add_interval_def)
  next
    case False
    have "list_all (\<lambda>(s, e). fst (domain X) \<le> s \<and> e \<le> snd (domain X)) (segments X @ [(s, e)])"
      using c se by (auto simp: canonical_def clip_def)
    then have "canonical \<lparr>domain = domain X, segments = cleanup_segments (segments X @ [(s, e)])\<rparr>"
      by (rule canonical_cleanup_segments)
    moreover have "add_interval start end' X =
        \<lparr>domain = domain X, segments = cleanup_segments (segments X @ [(s, e)])\<rparr>"
      using False se by (simp add: add_interval_def cleanup_def)
    ultimately show ?thesis by simp
  qed
qed

lemma canonical_merge: "canonical (merge X Y)"
  unfolding merge_def Let_def by (rule canonical_cleanup_record) (rule clip_within)

lemma pairwise_overlaps_within:
  assumes "list_all (\<lambda>(s, e). lo1 \<le> s \<and> e \<le> hi1) xs"
    and "list_all (\<lambda>(s, e). lo2 \<le> s \<and> e \<le> hi2) ys"
  shows "list_all (\<lambda>(s, e). max lo1 lo2 \<le> s \<and> e \<le> min hi1 hi2) (pairwise_overlaps xs ys)"
  using assms unfolding pairwise_overlaps_def list_all_iff
  by (auto split: if_splits simp: max.coboundedI1 max.coboundedI2 min.coboundedI1 min.coboundedI2)

lemma canonical_intersect:
  assumes "canonical X" and "canonical Y"
  shows "canonical (intersect X Y)"
proof -
  define lo where "lo = max (fst (domain X)) (fst (domain Y))"
  define hi where "hi = min (snd (domain X)) (snd (domain Y))"
  have eq: "intersect X Y =
      (if lo \<le> hi then
         cleanup \<lparr>domain = (lo, hi), segments = pairwise_overlaps (segments X) (segments Y)\<rparr>
       else \<lparr>domain = (lo, lo), segments = []\<rparr>)"
    by (simp add: intersect_def Let_def lo_def hi_def)
  have "list_all (\<lambda>(s, e). lo \<le> s \<and> e \<le> hi) (pairwise_overlaps (segments X) (segments Y))"
    unfolding lo_def hi_def
    using assms by (intro pairwise_overlaps_within) (simp_all add: canonical_def)
  then have "canonical
      (cleanup \<lparr>domain = (lo, hi), segments = pairwise_overlaps (segments X) (segments Y)\<rparr>)"
    by (intro canonical_cleanup_record) simp
  then show ?thesis
    unfolding eq by (simp add: canonical_empty)
qed

lemma canonical_trim_to: "trim_to start end' X = Inr Y \<Longrightarrow> canonical Y"
  unfolding trim_to_def Let_def
  by (auto split: if_splits intro!: canonical_cleanup_record clip_within)

lemma remove_segment_within:
  "list_all (\<lambda>(s, e). lo \<le> s \<and> e \<le> hi) xs \<Longrightarrow>
   list_all (\<lambda>(s, e). lo \<le> s \<and> e \<le> hi) (remove_segment sub xs)"
  unfolding remove_segment_def list_all_iff
  by (auto simp: max.coboundedI1 min.coboundedI1)

lemma fold_remove_segment_within:
  "list_all (\<lambda>(s, e). lo \<le> s \<and> e \<le> hi) xs \<Longrightarrow>
   list_all (\<lambda>(s, e). lo \<le> s \<and> e \<le> hi) (fold remove_segment subs xs)"
  by (induction subs arbitrary: xs) (simp_all add: remove_segment_within)

lemma canonical_op_minus_assign:
  assumes "canonical X"
  shows "canonical (op_minus_assign X Y)"
proof -
  have "list_all (\<lambda>(s, e). fst (domain X) \<le> s \<and> e \<le> snd (domain X))
          (fold remove_segment (segments Y) (segments X))"
    using assms by (intro fold_remove_segment_within) (simp add: canonical_def)
  then have "canonical \<lparr>domain = domain X,
      segments = cleanup_segments (fold remove_segment (segments Y) (segments X))\<rparr>"
    by (rule canonical_cleanup_segments)
  then show ?thesis by (simp add: op_minus_assign_def cleanup_def canonical_def)
qed

lemma gaps_shape:
  assumes "sorted_wrt (\<lambda>p q. snd p < fst q) segs"
    and "list_all (\<lambda>(s, e). s < e) segs"
    and "list_all (\<lambda>(s, e). lo \<le> s \<and> e \<le> hi) segs"
  shows "sorted_wrt (\<lambda>p q. snd p < fst q) (gaps lo segs hi) \<and>
         list_all (\<lambda>(s, e). s < e) (gaps lo segs hi) \<and>
         list_all (\<lambda>(s, e). lo \<le> s \<and> e \<le> hi) (gaps lo segs hi)"
  using assms
proof (induction segs arbitrary: lo)
  case Nil
  then show ?case by simp
next
  case (Cons p rest)
  obtain s e where p: "p = (s, e)" by (cases p)
  have rest_in: "list_all (\<lambda>(s', e'). e \<le> s' \<and> e' \<le> hi) rest"
    using Cons.prems p by (fastforce simp: list_all_iff)
  have IH: "sorted_wrt (\<lambda>p q. snd p < fst q) (gaps e rest hi) \<and>
         list_all (\<lambda>(s, e). s < e) (gaps e rest hi) \<and>
         list_all (\<lambda>(s', e'). e \<le> s' \<and> e' \<le> hi) (gaps e rest hi)"
    using Cons.IH [OF _ _ rest_in] Cons.prems by simp
  have bounds: "lo \<le> s" "s < e" "e \<le> hi" using Cons.prems p by simp_all
  show ?case using IH bounds p
    by (fastforce simp: list_all_iff)
qed

lemma canonical_get_complement:
  assumes "canonical X"
  shows "canonical (snd (get_complement X))"
proof -
  have "sorted_wrt (\<lambda>p q. snd p < fst q) (gaps (fst (domain X)) (segments X) (snd (domain X))) \<and>
        list_all (\<lambda>(s, e). s < e) (gaps (fst (domain X)) (segments X) (snd (domain X))) \<and>
        list_all (\<lambda>(s, e). fst (domain X) \<le> s \<and> e \<le> snd (domain X))
          (gaps (fst (domain X)) (segments X) (snd (domain X)))"
    using assms by (intro gaps_shape) (simp_all add: canonical_def)
  then show ?thesis
    by (simp add: canonical_def get_complement_def separated_sorted_starts)
qed

lemma gaps_gaps_step:
  assumes "s < e" and "e \<le> hi"
    and "sorted_wrt (\<lambda>p q. snd p < fst q) rest"
    and "list_all (\<lambda>(s', e'). s' < e') rest"
    and "list_all (\<lambda>(s', e'). e < s' \<and> e' \<le> hi) rest"
  shows "gaps s (gaps e rest hi) hi = (s, e) # rest"
  using assms
proof (induction rest arbitrary: s e)
  case Nil
  then show ?case by auto
next
  case (Cons p rest)
  obtain s' e' where p: "p = (s', e')" by (cases p)
  have "gaps s' (gaps e' rest hi) hi = (s', e') # rest"
    using Cons.prems p by (intro Cons.IH) (auto simp: list_all_iff)
  then show ?case using Cons.prems p by simp
qed

lemma gaps_involution:
  assumes "sorted_wrt (\<lambda>p q. snd p < fst q) segs"
    and "list_all (\<lambda>(s, e). s < e) segs"
    and "list_all (\<lambda>(s, e). lo \<le> s \<and> e \<le> hi) segs"
  shows "gaps lo (gaps lo segs hi) hi = segs"
proof (cases segs)
  case Nil
  then show ?thesis by simp
next
  case (Cons p rest)
  obtain s e where p: "p = (s, e)" by (cases p)
  have step: "gaps s (gaps e rest hi) hi = (s, e) # rest"
    using assms Cons p by (intro gaps_gaps_step) (auto simp: list_all_iff)
  have "lo \<le> s" using assms(3) Cons p by simp
  then show ?thesis using step Cons p by (cases "lo < s") auto
qed

section \<open>Lemmas on the shape loop\<close>

text \<open>
  For a pattern of non-negative entries only, the loop ends with the pattern and the shape
  both used up exactly when the two sequences are equal.
\<close>

lemma to_size_t_small: "0 \<le> x \<Longrightarrow> x < 2 ^ 64 \<Longrightarrow> to_size_t x = x"
  by (simp add: to_size_t_def)

lemma shape_loop_exact_from:
  assumes "list_all (\<lambda>p. 0 \<le> p) shape" and "int (length vshape) < 2 ^ 64"
    and "k \<le> length shape" and "k \<le> length vshape"
  shows "(fst (shape_loop shape vshape k (int k)) = length shape \<and>
          to_size_t (snd (shape_loop shape vshape k (int k))) = int (length vshape))
         = (drop k vshape = drop k shape)"
  using assms(3,4)
proof (induction "length shape - k" arbitrary: k)
  case 0
  then have k: "k = length shape" by simp
  have "to_size_t (int k) = int k"
    using assms(2) "0.prems"(2) by (intro to_size_t_small) simp_all
  then show ?case using k "0.prems"(2)
    by (subst (1 2) shape_loop.simps) auto
next
  case (Suc n)
  then have k: "k < length shape" by simp
  have small: "to_size_t (int k) = int k"
    using assms(2) Suc.prems(2) by (intro to_size_t_small) simp_all
  have nonneg: "0 \<le> shape ! k"
    using assms(1) k by (simp add: list_all_length)
  show ?case
  proof (cases "k < length vshape")
    case False
    then have "k = length vshape" using Suc.prems(2) by simp
    then show ?thesis using k small
      by (subst (1 2) shape_loop.simps) auto
  next
    case True
    show ?thesis
    proof (cases "shape ! k = vshape ! k")
      case eq: True
      have step: "shape_loop shape vshape k (int k) = shape_loop shape vshape (Suc k) (int (Suc k))"
        using k True small nonneg eq
        by (subst shape_loop.simps) (simp add: add.commute)
      have IH: "(fst (shape_loop shape vshape (Suc k) (int (Suc k))) = length shape \<and>
          to_size_t (snd (shape_loop shape vshape (Suc k) (int (Suc k)))) = int (length vshape))
         = (drop (Suc k) vshape = drop (Suc k) shape)"
        using Suc.hyps(2) k True by (intro Suc.hyps(1)) simp_all
      have "(drop k vshape = drop k shape) = (drop (Suc k) vshape = drop (Suc k) shape)"
        using eq Cons_nth_drop_Suc [OF k] Cons_nth_drop_Suc [OF True] by (metis list.inject)
      then show ?thesis using step IH by simp
    next
      case neq: False
      have stop: "shape_loop shape vshape k (int k) = (k, int k)"
        using k True small nonneg neq
        by (subst shape_loop.simps) simp
      have "drop k vshape \<noteq> drop k shape"
        using neq Cons_nth_drop_Suc [OF k] Cons_nth_drop_Suc [OF True] by (metis list.inject)
      then show ?thesis using stop k by simp
    qed
  qed
qed

lemma shape_loop_exact:
  assumes "list_all (\<lambda>p. 0 \<le> p) shape" and "int (length vshape) < 2 ^ 64"
  shows "(fst (shape_loop shape vshape 0 0) = length shape \<and>
          to_size_t (snd (shape_loop shape vshape 0 0)) = int (length vshape))
         = (vshape = shape)"
  using shape_loop_exact_from [OF assms, of 0] by simp

text \<open>
  The \<open>-2\<close> branch can move \<open>j\<close> backwards: the pattern \<open>(-1, -1, -2, 7, 8)\<close> asks for
  four axes at least, and the loop accepts the three axes \<open>(3, 7, 8)\<close>.
\<close>

lemma leading_wildcard_moves_back:
  "shape_loop [-1, -1, -2, 7, 8] [3, 7, 8] 0 0 = (5, 3) \<and>
   \<not> pattern_matches [-1, -1, -2, 7, 8] [3, 7, 8]"
  by (simp add: shape_loop.simps to_size_t_def to_int_def)

text \<open>
  With \<open>optional = true\<close>, a failed export that has filled the view is not told apart from
  a successful one: the view's \<open>buf\<close> pointer is set, so the element type and the shape
  are checked.
\<close>

lemma optional_failed_export_is_checked:
  "BufferWrapper_shape Int32 name
       (GetBufferFails \<lparr>view_buf = 1, view_format = Some ''d'', view_itemsize = 8, view_shape = [3]\<rparr>)
       True [3]
     = Inl (dtype_exception name ''int32'')"
  by (simp add: BufferWrapper_shape_def BufferWrapper_src_def check_buffer_type_def
      check_buffer_helper_def)

section \<open>The constructors of Intervals.h\<close>

text \<open>
  C1. The claim: for every pair \<open>(start, end)\<close>, the two-argument constructor
  \<open>Intervals(start, end)\<close> produces an empty set whose domain equals \<open>(start, end)\<close>.
  The constructor's body only builds and drops a temporary, so the object's domain stays
  value-initialised: \<open>Intervals<int64_t>(0, 100)\<close> has the domain \<open>(0, 0)\<close>, not
  \<open>(0, 100)\<close>.
\<close>

theorem two_arg_constructor_drops_domain:
  "Intervals_start_end (0::int) 100 = \<lparr>domain = (0, 0), segments = []\<rparr> \<and>
   domain (Intervals_start_end (0::int) 100) \<noteq> (0, 100)"
  by (simp add: Intervals_start_end_def)

text \<open>
  C3, as stated: constructing a set over a domain with \<open>start > end\<close> surfaces an
  \<open>InvalidDomain\<close> error and never yields a set whose domain has \<open>start > end\<close>. It
  fails at the domain \<open>(5, 3)\<close>: the constructor returns a set with exactly this domain.
\<close>

theorem pair_constructor_inverted_domain:
  "snd (domain (Intervals_pair (5::int, 3))) < fst (domain (Intervals_pair (5::int, 3)))"
  by (simp add: Intervals_pair_def)

text \<open>
  C3, amended: the constructor \<open>Intervals(pair<T,T> domain)\<close> validates nothing. For every
  \<open>(start, end)\<close> with \<open>start > end\<close> it returns the empty set whose domain is
  \<open>(start, end)\<close>, so the domain of the result has \<open>start > end\<close>.
\<close>

theorem pair_constructor_no_validation:
  fixes start end' :: "'a::linorder"
  assumes "end' < start"
  shows "Intervals_pair (start, end') = \<lparr>domain = (start, end'), segments = []\<rparr> \<and>
         snd (domain (Intervals_pair (start, end'))) < fst (domain (Intervals_pair (start, end')))"
  using assms by (simp add: Intervals_pair_def)

text \<open>The amended C3 at the domain \<open>(5, 3)\<close>.\<close>

theorem pair_constructor_no_validation_witness:
  "(3::int) < 5 \<and>
   Intervals_pair (5::int, 3) = \<lparr>domain = (5, 3), segments = []\<rparr> \<and>
   snd (domain (Intervals_pair (5::int, 3))) < fst (domain (Intervals_pair (5::int, 3)))"
proof -
  have h: "(3::int) < 5" by simp
  show ?thesis using h pair_constructor_no_validation [OF h] by simp
qed

section \<open>Canonical form, cleanup and complement\<close>

text \<open>
  C2. Every set a caller can observe, after any sequence of public operations
  (\<open>add_interval\<close>, \<open>merge\<close>, \<open>intersect\<close>, \<open>trim_to\<close>, \<open>cleanup\<close>, the operators), is
  in canonical form: its segments are sorted ascending by start, pairwise non-overlapping
  and non-adjacent, each with \<open>start < end\<close>, and each within the domain.
\<close>

theorem observable_canonical: "observable X \<Longrightarrow> canonical X"
proof (induction rule: observable.induct)
  case (obs_default d)
  show ?case by (simp add: Intervals_default_def canonical_empty)
next
  case (obs_pair d)
  show ?case by (simp add: Intervals_pair_def canonical_empty)
next
  case (obs_start_end start end')
  show ?case by (simp add: Intervals_start_end_def canonical_empty)
next
  case (obs_add_interval X start end')
  then show ?case by (simp add: canonical_add_interval)
next
  case (obs_merge X Y)
  show ?case by (rule canonical_merge)
next
  case (obs_intersect X Y)
  then show ?case by (simp add: canonical_intersect)
next
  case (obs_get_complement X)
  then show ?case by (simp add: canonical_get_complement)
next
  case (obs_trim_to X start end' Y)
  then show ?case by (simp add: canonical_trim_to)
next
  case (obs_cleanup X)
  then show ?case by (simp add: cleanup_canonical_id)
next
  case (obs_neg X)
  then show ?case by (simp add: op_neg_def canonical_get_complement)
next
  case (obs_plus_assign X Y)
  show ?case by (simp add: op_plus_assign_def canonical_merge)
next
  case (obs_minus_assign X Y)
  then show ?case by (simp add: canonical_op_minus_assign)
next
  case (obs_plus X Y)
  show ?case by (simp add: op_plus_def canonical_merge)
next
  case (obs_minus X Y)
  then show ?case by (simp add: op_minus_def canonical_op_minus_assign)
next
  case (obs_times X Y)
  then show ?case by (simp add: op_times_def canonical_intersect)
qed

text \<open>
  C2 on the spec's scenario: domain \<open>(0, 100)\<close>, \<open>add_interval(10, 20)\<close>, then
  \<open>add_interval(15, 30)\<close> gives the single segment \<open>[10, 30)\<close>.
\<close>

theorem observable_canonical_witness:
  "observable (add_interval 15 30 (add_interval 10 20 (Intervals_pair (0::int, 100)))) \<and>
   canonical (add_interval 15 30 (add_interval 10 20 (Intervals_pair (0::int, 100)))) \<and>
   segments (add_interval 15 30 (add_interval 10 20 (Intervals_pair (0::int, 100)))) = [(10, 30)]"
proof -
  have h: "observable (add_interval 15 30 (add_interval 10 20 (Intervals_pair (0::int, 100))))"
    by (intro observable.intros)
  have "segments (add_interval 15 30 (add_interval 10 20 (Intervals_pair (0::int, 100)))) = [(10, 30)]"
    by (simp add: add_interval_def Intervals_pair_def clip_def cleanup_def cleanup_segments_def)
  then show ?thesis using h observable_canonical [OF h] by simp
qed

text \<open>
  C4. For every set \<open>X\<close> in canonical form, applying \<open>get_complement\<close> twice returns a
  set equal to \<open>X\<close>, with the same domain and the same segments.
\<close>

theorem complement_involution:
  "canonical X \<Longrightarrow> snd (get_complement (snd (get_complement X))) = X"
  by (simp add: get_complement_def canonical_def gaps_involution)

text \<open>
  C4 on the spec's scenario: the segments \<open>[0,10), [20,30)\<close> over the domain \<open>(0, 100)\<close>
  have the complement \<open>[10,20), [30,100)\<close>, whose complement is the set itself.
\<close>

theorem complement_involution_witness:
  "canonical \<lparr>domain = (0::int, 100), segments = [(0, 10), (20, 30)]\<rparr> \<and>
   segments (snd (get_complement \<lparr>domain = (0::int, 100), segments = [(0, 10), (20, 30)]\<rparr>))
     = [(10, 20), (30, 100)] \<and>
   snd (get_complement (snd (get_complement
       \<lparr>domain = (0::int, 100), segments = [(0, 10), (20, 30)]\<rparr>)))
     = \<lparr>domain = (0::int, 100), segments = [(0, 10), (20, 30)]\<rparr>"
proof -
  have h: "canonical \<lparr>domain = (0::int, 100), segments = [(0, 10), (20, 30)]\<rparr>"
    by (simp add: canonical_def)
  have "segments (snd (get_complement \<lparr>domain = (0::int, 100), segments = [(0, 10), (20, 30)]\<rparr>))
     = [(10, 20), (30, 100)]"
    by (simp add: get_complement_def)
  then show ?thesis using h complement_involution [OF h] by simp
qed

text \<open>
  C5. For every set, calling \<open>cleanup\<close> twice leaves it in the same state as calling it
  once, and calling \<open>cleanup\<close> on a set already in canonical form changes nothing.
\<close>

theorem cleanup_idempotent:
  "cleanup (cleanup X) = cleanup X \<and> (canonical X \<longrightarrow> cleanup X = X)"
proof (intro conjI impI)
  show "cleanup (cleanup X) = cleanup X"
    by (simp add: cleanup_def cleanup_segments_id cleanup_segments_separated
        cleanup_segments_nonempty)
next
  assume "canonical X"
  then show "cleanup X = X" by (rule cleanup_canonical_id)
qed

text \<open>
  C5 on a canonical set, which \<open>cleanup\<close> leaves as it is, and on the unsorted segments
  \<open>[15,30), [10,20), [5,5)\<close>, which one \<open>cleanup\<close> turns into \<open>[10,30)\<close>.
\<close>

theorem cleanup_idempotent_witness:
  "canonical \<lparr>domain = (0::int, 100), segments = [(10, 20), (30, 40)]\<rparr> \<and>
   cleanup \<lparr>domain = (0::int, 100), segments = [(10, 20), (30, 40)]\<rparr>
     = \<lparr>domain = (0::int, 100), segments = [(10, 20), (30, 40)]\<rparr> \<and>
   cleanup \<lparr>domain = (0::int, 100), segments = [(15, 30), (10, 20), (5, 5)]\<rparr>
     = \<lparr>domain = (0::int, 100), segments = [(10, 30)]\<rparr> \<and>
   cleanup (cleanup \<lparr>domain = (0::int, 100), segments = [(15, 30), (10, 20), (5, 5)]\<rparr>)
     = cleanup \<lparr>domain = (0::int, 100), segments = [(15, 30), (10, 20), (5, 5)]\<rparr>"
proof -
  have h: "canonical \<lparr>domain = (0::int, 100), segments = [(10, 20), (30, 40)]\<rparr>"
    by (simp add: canonical_def)
  have e: "cleanup \<lparr>domain = (0::int, 100), segments = [(15, 30), (10, 20), (5, 5)]\<rparr>
     = \<lparr>domain = (0::int, 100), segments = [(10, 30)]\<rparr>"
    by (simp add: cleanup_def cleanup_segments_def)
  show ?thesis
    using h e
      cleanup_idempotent [of "\<lparr>domain = (0::int, 100), segments = [(10, 20), (30, 40)]\<rparr>"]
      cleanup_idempotent [of "\<lparr>domain = (0::int, 100), segments = [(15, 30), (10, 20), (5, 5)]\<rparr>"]
    by simp
qed

text \<open>
  C6. For every set \<open>X\<close>, calling \<open>X.get_complement()\<close> leaves \<open>X\<close> unchanged: its domain
  and segments after the call are those before it.
\<close>

theorem get_complement_frame: "fst (get_complement X) = X"
  by (simp add: get_complement_def)

section \<open>Buffer checking\<close>

text \<open>
  C7. The claim: in a shape pattern \<open>-1\<close> matches exactly one axis of any length, \<open>-2\<close>
  zero or more leading axes, \<open>-3\<close> zero or more trailing axes, and a non-negative entry
  one axis of exactly that length. The loop stops as soon as the buffer's axes are used
  up, so a \<open>-3\<close> that is left with zero trailing axes is never reached: the pattern
  \<open>(5, -3)\<close> matches the shape \<open>(5)\<close> as the comments read it, and the constructor throws
  a shape exception on it.
\<close>

theorem trailing_wildcard_rejects_zero_axes:
  "pattern_matches [5, -3] [5] \<and>
   shape_loop [5, -3] [5] 0 0 = (1, 1) \<and>
   BufferWrapper_shape Double name
       (GetBufferOk \<lparr>view_buf = 1, view_format = Some ''d'', view_itemsize = 8, view_shape = [5]\<rparr>)
       False [5, -3]
     = Inl (shape_exception name ''Expected (5, ->...) but got (5).'')"
proof -
  have loop: "shape_loop [5, -3] [5] 0 0 = (1, 1)"
    by (simp add: shape_loop.simps to_size_t_def)
  show ?thesis
    by (simp add: loop BufferWrapper_shape_def BufferWrapper_src_def check_buffer_type_def
        check_buffer_helper_def vshape_of_def to_int_def to_size_t_def shape_string_def
        shape_entry_def decimal.simps)
qed

text \<open>C7's failing input, with the array named \<open>in\<close>.\<close>

theorem trailing_wildcard_rejects_zero_axes_witness:
  "pattern_matches [5, -3] [5] \<and>
   BufferWrapper_shape Double ''in''
       (GetBufferOk \<lparr>view_buf = 1, view_format = Some ''d'', view_itemsize = 8, view_shape = [5]\<rparr>)
       False [5, -3]
     = Inl (shape_exception ''in'' ''Expected (5, ->...) but got (5).'')"
  using trailing_wildcard_rejects_zero_axes [of "''in''"] by simp

text \<open>
  C8, as stated: for every non-optional input the constructor either succeeds or fails
  with a buffer exception when the object has no buffer interface, a dtype exception when
  the element type does not match \<open>T\<close>, or a shape exception when the shape does not match
  the pattern. It fails for a buffer whose \<open>buf\<close> pointer is NULL: the constructor returns
  normally although the element type (\<open>d\<close> against \<open>int32\<close>) and the shape (\<open>(3)\<close> against
  \<open>(5)\<close>) do not match.
\<close>

theorem null_buf_skips_checks:
  "\<not> check_buffer_type Int32
       \<lparr>view_buf = 0, view_format = Some ''d'', view_itemsize = 8, view_shape = [3]\<rparr> \<and>
   BufferWrapper_shape Int32 ''a''
       (GetBufferOk \<lparr>view_buf = 0, view_format = Some ''d'', view_itemsize = 8, view_shape = [3]\<rparr>)
       False [5]
     = Inr \<lparr>view_buf = 0, view_format = Some ''d'', view_itemsize = 8, view_shape = [3]\<rparr>"
  by (simp add: BufferWrapper_shape_def BufferWrapper_src_def check_buffer_type_def
      check_buffer_helper_def)

text \<open>
  C8, amended: for every non-optional input the constructor throws a buffer exception
  when \<open>PyObject_GetBuffer\<close> with \<open>PyBUF_RECORDS\<close> fails, which is when the object does
  not expose the buffer interface and also when it does and the export fails, as for a
  read-only object; when the call succeeds, the constructor returns normally, with no
  check, if the view's \<open>buf\<close> pointer is NULL; otherwise it throws a dtype exception if
  \<open>check_buffer_type<T>\<close> fails; otherwise a shape exception if the matching loop does not
  end with the pattern and the shape both used up; otherwise it succeeds with the view.
\<close>

theorem BufferWrapper_shape_required:
  "BufferWrapper_shape T name src False shape =
     (case src of
        NoBufferInterface \<Rightarrow> Inl (buffer_exception name)
      | GetBufferFails w \<Rightarrow> Inl (buffer_exception name)
      | GetBufferOk v \<Rightarrow>
          if view_buf v = 0 then Inr v
          else if \<not> check_buffer_type T v then Inl (dtype_exception name (type_name T))
          else if fst (shape_loop shape (vshape_of v) 0 0) = length shape \<and>
                  to_size_t (snd (shape_loop shape (vshape_of v) 0 0)) = int (length (vshape_of v))
          then Inr v
          else Inl (shape_exception name
                 (''Expected '' @ shape_string shape @ '' but got '' @
                  shape_string (vshape_of v) @ ''.'')))"
  by (auto simp: BufferWrapper_shape_def BufferWrapper_src_def Let_def
      split: py_object.splits prod.splits)

text \<open>
  The amended C8 on a \<open>float64\<close> buffer of shape \<open>(3)\<close>: accepted for \<open>double\<close> and the
  pattern \<open>(3)\<close>, a dtype exception for \<open>int32\<close>, a shape exception for the pattern \<open>(5)\<close>;
  a buffer exception for an object with no buffer interface, and for the same buffer
  behind a read-only memoryview, whose export fails after it has filled the view.
\<close>

theorem BufferWrapper_shape_required_witness:
  "BufferWrapper_shape Double ''a''
       (GetBufferOk \<lparr>view_buf = 1, view_format = Some ''d'', view_itemsize = 8, view_shape = [3]\<rparr>)
       False [3]
     = Inr \<lparr>view_buf = 1, view_format = Some ''d'', view_itemsize = 8, view_shape = [3]\<rparr> \<and>
   BufferWrapper_shape Int32 ''a''
       (GetBufferOk \<lparr>view_buf = 1, view_format = Some ''d'', view_itemsize = 8, view_shape = [3]\<rparr>)
       False [3]
     = Inl (dtype_exception ''a'' ''int32'') \<and>
   BufferWrapper_shape Double ''a''
       (GetBufferOk \<lparr>view_buf = 1, view_format = Some ''d'', view_itemsize = 8, view_shape = [3]\<rparr>)
       False [5]
     = Inl (shape_exception ''a'' ''Expected (5) but got (3).'') \<and>
   BufferWrapper_shape Double ''a'' NoBufferInterface False [3] = Inl (buffer_exception ''a'') \<and>
   BufferWrapper_shape Double ''a''
       (GetBufferFails \<lparr>view_buf = 1, view_format = Some ''d'', view_itemsize = 8, view_shape = [3]\<rparr>)
       False [3]
     = Inl (buffer_exception ''a'')"
proof -
  let ?v = "\<lparr>view_buf = 1, view_format = Some ''d'', view_itemsize = 8, view_shape = [3]\<rparr>"
  have l3: "shape_loop [3] [3] 0 0 = (1, 1)"
    by (simp add: shape_loop.simps to_size_t_def)
  have l5: "shape_loop [5] [3] 0 0 = (0, 0)"
    by (simp add: shape_loop.simps to_size_t_def)
  show ?thesis
    using BufferWrapper_shape_required [of Double "''a''" "GetBufferOk ?v" "[3]"]
      BufferWrapper_shape_required [of Int32 "''a''" "GetBufferOk ?v" "[3]"]
      BufferWrapper_shape_required [of Double "''a''" "GetBufferOk ?v" "[5]"]
      BufferWrapper_shape_required [of Double "''a''" NoBufferInterface "[3]"]
      BufferWrapper_shape_required [of Double "''a''" "GetBufferFails ?v" "[3]"]
    by (simp add: l3 l5 check_buffer_type_def check_buffer_helper_def vshape_of_def to_int_def
        to_size_t_def shape_string_def shape_entry_def decimal.simps)
qed

text \<open>
  C9. \<open>check_buffer_type<T>\<close> accepts a buffer exactly when its element type matches
  \<open>T\<close>: for an integral \<open>T\<close> iff the format string is non-empty, its first character is one
  of \<open>b\<close>, \<open>h\<close>, \<open>i\<close>, \<open>l\<close>, \<open>q\<close> and the item size is \<open>sizeof(T)\<close>; for \<open>float\<close> iff
  the first character is \<open>f\<close>, for \<open>double\<close> iff it is \<open>d\<close>, each with the matching item
  size; and it is false for every other non-integral \<open>T\<close>.
\<close>

theorem check_buffer_type_iff:
  "(is_integral T \<longrightarrow>
      check_buffer_type T view =
        (\<exists>fmt. view_format view = Some fmt \<and> fmt \<noteq> [] \<and> hd fmt \<in> set ''bhilq'' \<and>
               view_itemsize view = int (sizeof T))) \<and>
   check_buffer_type Float view =
        (\<exists>fmt. view_format view = Some fmt \<and> fmt \<noteq> [] \<and> hd fmt = CHR ''f'' \<and>
               view_itemsize view = int (sizeof Float)) \<and>
   check_buffer_type Double view =
        (\<exists>fmt. view_format view = Some fmt \<and> fmt \<noteq> [] \<and> hd fmt = CHR ''d'' \<and>
               view_itemsize view = int (sizeof Double)) \<and>
   check_buffer_type (OtherNonIntegral n) view = False"
  by (cases T) (auto simp: check_buffer_type_def check_buffer_helper_def split: option.splits)

text \<open>
  C9 on an \<open>int32\<close> buffer (format \<open>i\<close>, item size 4): accepted for \<open>int32_t\<close>, rejected
  for \<open>int64_t\<close>, \<open>float\<close> and \<open>double\<close>.
\<close>

theorem check_buffer_type_iff_witness:
  "is_integral Int32 \<and> is_integral Int64 \<and>
   check_buffer_type Int32
     \<lparr>view_buf = 1, view_format = Some ''i'', view_itemsize = 4, view_shape = [3]\<rparr> \<and>
   \<not> check_buffer_type Int64
     \<lparr>view_buf = 1, view_format = Some ''i'', view_itemsize = 4, view_shape = [3]\<rparr> \<and>
   \<not> check_buffer_type Float
     \<lparr>view_buf = 1, view_format = Some ''i'', view_itemsize = 4, view_shape = [3]\<rparr> \<and>
   \<not> check_buffer_type Double
     \<lparr>view_buf = 1, view_format = Some ''i'', view_itemsize = 4, view_shape = [3]\<rparr>"
proof -
  let ?v = "\<lparr>view_buf = 1, view_format = Some ''i'', view_itemsize = 4, view_shape = [3]\<rparr>"
  have h: "is_integral Int32" "is_integral Int64" by simp_all
  show ?thesis
    using h check_buffer_type_iff [of Int32 ?v] check_buffer_type_iff [of Int64 ?v]
    by simp
qed

text \<open>
  C10. For every source object that does not expose the buffer interface, the
  shape-checking constructor with \<open>optional = true\<close> returns normally, leaves the buffer
  pointer NULL, and checks neither the element type nor the shape: no \<open>T\<close> and no pattern
  raises an error.
\<close>

theorem optional_non_buffer_unchecked:
  "BufferWrapper_shape T name NoBufferInterface True shape = Inr BufferWrapper_default \<and>
   view_buf BufferWrapper_default = 0"
  by (simp add: BufferWrapper_shape_def BufferWrapper_src_def BufferWrapper_default_def)

text \<open>C10 on a type with no known name and on the pattern \<open>(-7)\<close>, which matches no shape.\<close>

theorem optional_non_buffer_unchecked_witness:
  "BufferWrapper_shape (OtherNonIntegral 3) ''a'' NoBufferInterface True [-7] = Inr BufferWrapper_default \<and>
   view_buf (BufferWrapper_default) = 0"
  using optional_non_buffer_unchecked [of "OtherNonIntegral 3" "''a''" "[-7]"] by simp

end
